theory Spec2Isabelle
  imports Main
begin

section \<open>JavaScript values\<close>

text \<open>
  The cache stores and keys are built from JSON values: the parsed query string, the
  parsed request body and the payloads handed to \<^verbatim>\<open>res.json\<close>. Numbers are
  modelled as integers (fractional doubles, \<^verbatim>\<open>NaN\<close> and \<^verbatim>\<open>-0\<close> are outside the
  model). A JavaScript object is an association list in the order in which
  \<^verbatim>\<open>Object.keys\<close> enumerates it. \<^verbatim>\<open>undefined\<close> is \<open>None\<close> of an option type.
\<close>

datatype json =
    JNull
  | JBool bool
  | JNum int
  | JStr string
  | JArr "json list"
  | JObj "(string \<times> json) list"

type_synonym jsobject = "(string \<times> json) list"

text \<open>Truthiness as tested by \<^verbatim>\<open>if (x)\<close>: \<^verbatim>\<open>null\<close>, \<^verbatim>\<open>false\<close>, \<^verbatim>\<open>0\<close> and
  the empty string are falsy; arrays and objects are always truthy.\<close>

fun truthy :: "json \<Rightarrow> bool" where
  "truthy JNull = False"
| "truthy (JBool b) = b"
| "truthy (JNum n) = (n \<noteq> 0)"
| "truthy (JStr s) = (s \<noteq> [])"
| "truthy (JArr vs) = True"
| "truthy (JObj ms) = True"

text \<open>\<^verbatim>\<open>Object.keys(o)\<close>, \<^verbatim>\<open>delete o[k]\<close> and the assignment \<^verbatim>\<open>o[k] = v\<close>: an
  existing property keeps its place, a new one goes last. (JavaScript enumerates
  property names that are array indices first, in numeric order. An object is given
  here in its enumeration order, and copying some of its properties in that order, as
  the key derivation does, keeps that order; header names and composed cache keys are
  not array indices.)\<close>

definition Object_keys :: "(string \<times> 'a) list \<Rightarrow> string list" where
  "Object_keys obj = map fst obj"

definition obj_delete :: "(string \<times> 'a) list \<Rightarrow> string \<Rightarrow> (string \<times> 'a) list" where
  "obj_delete obj k = filter (\<lambda>e. fst e \<noteq> k) obj"

fun obj_set :: "(string \<times> 'a) list \<Rightarrow> string \<Rightarrow> 'a \<Rightarrow> (string \<times> 'a) list" where
  "obj_set [] k v = [(k, v)]"
| "obj_set ((k', v') # obj) k v =
     (if k' = k then (k, v) # obj else (k', v') # obj_set obj k v)"

text \<open>Exceptions are values. node-cache errors carry an \<^verbatim>\<open>errorcode\<close>.\<close>

datatype js_error = NodeCacheError string | Error string

fun errorcode :: "js_error \<Rightarrow> string option" where
  "errorcode (NodeCacheError c) = Some c"
| "errorcode (Error m) = None"

subsection \<open>\<^verbatim>\<open>Array.prototype.join\<close> and \<^verbatim>\<open>JSON.stringify\<close>\<close>

fun join :: "string \<Rightarrow> string list \<Rightarrow> string" where
  "join sep [] = []"
| "join sep [x] = x"
| "join sep (x # y # ys) = x @ sep @ join sep (y # ys)"

definition digit_char :: "nat \<Rightarrow> char" where
  "digit_char d = char_of (48 + d)"

function digits10 :: "nat \<Rightarrow> string" where
  "digits10 n = (if n < 10 then [digit_char n] else digits10 (n div 10) @ [digit_char (n mod 10)])"
  by pat_completeness auto
termination
  by (relation "measure id") auto

declare digits10.simps [simp del]

definition Number_toString :: "int \<Rightarrow> string" where
  "Number_toString i = (if i < 0 then CHR ''-'' # digits10 (nat (- i)) else digits10 (nat i))"

definition hex_char :: "nat \<Rightarrow> char" where
  "hex_char d = (if d < 10 then char_of (48 + d) else char_of (87 + d))"

text \<open>The escapes of \<^verbatim>\<open>QuoteJSONString\<close>: the double quote (0x22) and the backslash
  (0x5C) get a backslash, the control characters below 0x20 their short escape or
  \<^verbatim>\<open>\u00XX\<close>, every other character is copied.\<close>

definition escape_char :: "char \<Rightarrow> string" where
  "escape_char c =
     (if c = CHR 0x22 then [CHR 0x5C, CHR 0x22]
      else if c = CHR 0x5C then [CHR 0x5C, CHR 0x5C]
      else if c = CHR 0x08 then [CHR 0x5C, CHR ''b'']
      else if c = CHR 0x09 then [CHR 0x5C, CHR ''t'']
      else if c = CHR 0x0A then [CHR 0x5C, CHR ''n'']
      else if c = CHR 0x0C then [CHR 0x5C, CHR ''f'']
      else if c = CHR 0x0D then [CHR 0x5C, CHR ''r'']
      else if of_char c < (32::nat) then
        [CHR 0x5C, CHR ''u'', CHR ''0'', CHR ''0'',
         hex_char (of_char c div 16), hex_char (of_char c mod 16)]
      else [c])"

definition QuoteJSONString :: "string \<Rightarrow> string" where
  "QuoteJSONString s = CHR 0x22 # concat (map escape_char s) @ [CHR 0x22]"

fun JSON_stringify :: "json \<Rightarrow> string" where
  "JSON_stringify JNull = ''null''"
| "JSON_stringify (JBool b) = (if b then ''true'' else ''false'')"
| "JSON_stringify (JNum i) = Number_toString i"
| "JSON_stringify (JStr s) = QuoteJSONString s"
| "JSON_stringify (JArr vs) = ''['' @ join '','' (map JSON_stringify vs) @ '']''"
| "JSON_stringify (JObj ms) =
     ''{'' @ join '','' (map (\<lambda>(k, v). QuoteJSONString k @ '':'' @ JSON_stringify v) ms) @ ''}''"

section \<open>Requests, cache configuration and key derivation\<close>

text \<open>What the middleware reads of an Express request. \<^verbatim>\<open>req.query\<close> and
  \<^verbatim>\<open>req.body\<close> may be absent (the code tests them); \<open>req_get\<close> is the header
  lookup \<^verbatim>\<open>req.get(name)\<close>.\<close>

record request =
  req_method :: string
  path :: string
  query :: "jsobject option"
  body :: "jsobject option"
  req_get :: "string \<Rightarrow> string option"

text \<open>\<^verbatim>\<open>CacheConfig\<close>. An optional field is an option; a custom key generator is
  user code and may throw.\<close>

record CacheConfig =
  duration :: int
  keyParams :: "string list option"
  ignoreParams :: "string list option"
  varyByHeaders :: "string list option"
  customKeyGenerator :: "(request \<Rightarrow> js_error + string) option"

text \<open>The test both parameter loops apply to a key:
  \<^verbatim>\<open>(!config.keyParams?.length || config.keyParams.includes(key)) &&
  !config.ignoreParams?.includes(key)\<close>.\<close>

definition selected :: "CacheConfig \<Rightarrow> string \<Rightarrow> bool" where
  "selected config key =
     ((case keyParams config of None \<Rightarrow> True | Some ks \<Rightarrow> ks = [] \<or> key \<in> set ks) \<and>
      \<not> (case ignoreParams config of None \<Rightarrow> False | Some ks \<Rightarrow> key \<in> set ks))"

text \<open>One round of \<^verbatim>\<open>Object.keys(src).forEach((key) => { if (...) dst[key] = src[key] })\<close>.\<close>

definition copy_param :: "CacheConfig \<Rightarrow> jsobject \<Rightarrow> jsobject \<Rightarrow> string \<Rightarrow> jsobject" where
  "copy_param config src dst key =
     (if selected config key
      then (case map_of src key of Some v \<Rightarrow> obj_set dst key v | None \<Rightarrow> dst)
      else dst)"

definition queryParams :: "request \<Rightarrow> CacheConfig \<Rightarrow> jsobject" where
  "queryParams req config =
     (case query req of
        None \<Rightarrow> []
      | Some q \<Rightarrow> foldl (copy_param config q) [] (Object_keys q))"

definition bodyParams :: "request \<Rightarrow> CacheConfig \<Rightarrow> jsobject" where
  "bodyParams req config =
     (case body req of
        None \<Rightarrow> []
      | Some b \<Rightarrow>
          if req_method req = ''POST'' \<or> req_method req = ''PUT''
          then foldl (copy_param config b) [] (Object_keys b)
          else [])"

text \<open>One round of the \<^verbatim>\<open>varyByHeaders.forEach\<close> loop: a header whose value is
  absent or the empty string (falsy) is left out.\<close>

definition copy_header :: "request \<Rightarrow> jsobject \<Rightarrow> string \<Rightarrow> jsobject" where
  "copy_header req dst header =
     (case req_get req header of
        None \<Rightarrow> dst
      | Some headerValue \<Rightarrow> if headerValue \<noteq> [] then obj_set dst header (JStr headerValue) else dst)"

definition headers :: "request \<Rightarrow> CacheConfig \<Rightarrow> jsobject" where
  "headers req config =
     (case varyByHeaders config of
        None \<Rightarrow> []
      | Some hs \<Rightarrow> foldl (copy_header req) [] hs)"


definition generateCacheKey :: "request \<Rightarrow> CacheConfig \<Rightarrow> js_error + string" where
  "generateCacheKey req config =
     (case customKeyGenerator config of
        Some g \<Rightarrow> g req
      | None \<Rightarrow>
          Inr (join ''|''
            [req_method req, path req,
             JSON_stringify (JObj (queryParams req config)),
             JSON_stringify (JObj (bodyParams req config)),
             JSON_stringify (JObj (headers req config))]))"

section \<open>The store adapters\<close>

text \<open>The \<^verbatim>\<open>CacheAdapter\<close> interface: five operations on a store of type \<open>'s\<close>. An
  operation may throw (or, when asynchronous, reject): that is the \<open>Inl\<close> result.\<close>

record 's CacheAdapter =
  get_op :: "string \<Rightarrow> 's \<Rightarrow> (js_error + json option) \<times> 's"
  set_op :: "string \<Rightarrow> json \<Rightarrow> int \<Rightarrow> 's \<Rightarrow> (js_error + unit) \<times> 's"
  del_op :: "string \<Rightarrow> 's \<Rightarrow> (js_error + unit) \<times> 's"
  keys_op :: "'s \<Rightarrow> (js_error + string list) \<times> 's"
  flushAll_op :: "'s \<Rightarrow> (js_error + unit) \<times> 's"

text \<open>What the adapters write with \<^verbatim>\<open>console.error\<close>.\<close>

record logger =
  console_error :: "string list"

subsection \<open>The in-process store\<close>

text \<open>\<^verbatim>\<open>CacheOptions\<close>, and the part of the node-cache library the adapter relies on:
  the table \<^verbatim>\<open>data\<close> of wrapped values (value and expiry time in milliseconds, 0 for
  none) in insertion order, the options, and the clock \<^verbatim>\<open>Date.now()\<close>. The library's
  \<^verbatim>\<open>set\<close> throws \<^verbatim>\<open>ECACHEFULL\<close> when \<^verbatim>\<open>maxKeys > -1\<close> and the table already holds
  \<^verbatim>\<open>maxKeys\<close> keys, before it looks at the key.\<close>

record CacheOptions =
  defaultTTL :: int
  checkPeriod :: "int option"
  maxKeys :: "int option"

record NodeCache =
  data :: "(string \<times> json \<times> int) list"
  opt_stdTTL :: int
  opt_checkperiod :: int
  opt_maxKeys :: int
  now :: int

definition NodeCache_get :: "string \<Rightarrow> NodeCache \<Rightarrow> json option \<times> NodeCache" where
  "NodeCache_get key c =
     (case map_of (data c) key of
        None \<Rightarrow> (None, c)
      | Some (v, t) \<Rightarrow>
          if t \<noteq> 0 \<and> t < now c then (None, c\<lparr>data := obj_delete (data c) key\<rparr>)
          else (Some v, c))"

definition NodeCache_set :: "string \<Rightarrow> json \<Rightarrow> int \<Rightarrow> NodeCache \<Rightarrow> js_error + NodeCache" where
  "NodeCache_set key v ttl c =
     (if opt_maxKeys c > - 1 \<and> int (length (data c)) \<ge> opt_maxKeys c
      then Inl (NodeCacheError ''ECACHEFULL'')
      else Inr (c\<lparr>data := obj_set (data c) key
                    (v, if ttl = 0 then 0 else now c + ttl * 1000)\<rparr>))"

definition NodeCache_del :: "string \<Rightarrow> NodeCache \<Rightarrow> NodeCache" where
  "NodeCache_del key c = c\<lparr>data := obj_delete (data c) key\<rparr>"

definition NodeCache_keys :: "NodeCache \<Rightarrow> string list" where
  "NodeCache_keys c = Object_keys (data c)"

definition NodeCache_flushAll :: "NodeCache \<Rightarrow> NodeCache" where
  "NodeCache_flushAll c = c\<lparr>data := []\<rparr>"

record NodeCacheAdapter = logger +
  cache :: NodeCache

text \<open>The constructor: \<^verbatim>\<open>checkPeriod || 600\<close> and \<^verbatim>\<open>maxKeys || -1\<close> replace an absent
  option and 0. The clock starts at \<open>t0\<close>.\<close>

definition NodeCacheAdapter_new :: "CacheOptions \<Rightarrow> int \<Rightarrow> NodeCacheAdapter" where
  "NodeCacheAdapter_new options t0 =
     \<lparr>console_error = [],
      cache = \<lparr>data = [],
               opt_stdTTL = defaultTTL options,
               opt_checkperiod = (case checkPeriod options of None \<Rightarrow> 600 | Some p \<Rightarrow> if p = 0 then 600 else p),
               opt_maxKeys = (case maxKeys options of None \<Rightarrow> - 1 | Some m \<Rightarrow> if m = 0 then - 1 else m),
               now = t0\<rparr>\<rparr>"

definition NodeCacheAdapter_get :: "string \<Rightarrow> NodeCacheAdapter \<Rightarrow> (js_error + json option) \<times> NodeCacheAdapter" where
  "NodeCacheAdapter_get key a =
     (case NodeCache_get key (cache a) of (r, c') \<Rightarrow> (Inr r, a\<lparr>cache := c'\<rparr>))"

text \<open>\<^verbatim>\<open>Math.ceil(keys.length * 0.1)\<close>. In double arithmetic the product of a multiple
  of ten with 0.1 rounds to the exact quotient, so the result is the integer ceiling
  of a tenth.\<close>

definition keysToDelete :: "nat \<Rightarrow> nat" where
  "keysToDelete n = (n + 9) div 10"

text \<open>The loop \<^verbatim>\<open>for (let i = 0; i < keysToDelete && i < keys.length; i++)
  this.cache.del(keys[i])\<close>.\<close>

function evict :: "nat \<Rightarrow> nat \<Rightarrow> string list \<Rightarrow> NodeCache \<Rightarrow> NodeCache" where
  "evict i n keys c =
     (if i < n \<and> i < length keys then evict (i + 1) n keys (NodeCache_del (keys ! i) c) else c)"
  by pat_completeness auto
termination
  by (relation "measure (\<lambda>(i, n, keys, c). length keys - i)") auto

declare evict.simps [simp del]

text \<open>The block that clears a tenth of the cache: \<^verbatim>\<open>keys\<close> is read once, before
  the loop.\<close>

definition clear_space :: "NodeCache \<Rightarrow> NodeCache" where
  "clear_space c =
     (let keys = NodeCache_keys c in evict 0 (keysToDelete (length keys)) keys c)"

definition NodeCacheAdapter_set ::
  "string \<Rightarrow> json \<Rightarrow> int \<Rightarrow> NodeCacheAdapter \<Rightarrow> (js_error + unit) \<times> NodeCacheAdapter" where
  "NodeCacheAdapter_set key v ttl a =
     (case NodeCache_set key v ttl (cache a) of
        Inr c' \<Rightarrow> (Inr (), a\<lparr>cache := c'\<rparr>)
      | Inl error \<Rightarrow>
          if errorcode error = Some ''ECACHEFULL'' then
            (let c1 = clear_space (cache a)
             in case NodeCache_set key v ttl c1 of
                  Inr c2 \<Rightarrow> (Inr (), a\<lparr>cache := c2\<rparr>)
                | Inl retryError \<Rightarrow>
                    (Inr (), a\<lparr>cache := c1,
                       console_error := console_error a @
                         [''Failed to cache response after clearing space:'']\<rparr>))
          else (Inr (), a\<lparr>console_error := console_error a @ [''Cache error:'']\<rparr>))"

definition NodeCacheAdapter_del :: "string \<Rightarrow> NodeCacheAdapter \<Rightarrow> (js_error + unit) \<times> NodeCacheAdapter" where
  "NodeCacheAdapter_del key a = (Inr (), a\<lparr>cache := NodeCache_del key (cache a)\<rparr>)"

definition NodeCacheAdapter_keys :: "NodeCacheAdapter \<Rightarrow> (js_error + string list) \<times> NodeCacheAdapter" where
  "NodeCacheAdapter_keys a = (Inr (NodeCache_keys (cache a)), a)"

definition NodeCacheAdapter_flushAll :: "NodeCacheAdapter \<Rightarrow> (js_error + unit) \<times> NodeCacheAdapter" where
  "NodeCacheAdapter_flushAll a = (Inr (), a\<lparr>cache := NodeCache_flushAll (cache a)\<rparr>)"

definition NodeCacheAdapter_ops :: "NodeCacheAdapter CacheAdapter" where
  "NodeCacheAdapter_ops =
     \<lparr>get_op = NodeCacheAdapter_get, set_op = NodeCacheAdapter_set,
      del_op = NodeCacheAdapter_del, keys_op = NodeCacheAdapter_keys,
      flushAll_op = NodeCacheAdapter_flushAll\<rparr>"

subsection \<open>The networked store\<close>

text \<open>The ioredis client is outside the repository: its commands are the fields of
  \<open>RedisClient\<close>, each of which may reject. \<^verbatim>\<open>JSON.parse\<close> is a parameter \<open>parse\<close>
  of \<open>RedisCacheAdapter_get\<close>; it throws on malformed text.\<close>

record 'c RedisClient =
  redis_get :: "string \<Rightarrow> 'c \<Rightarrow> (js_error + string option) \<times> 'c"
  redis_setex :: "string \<Rightarrow> int \<Rightarrow> string \<Rightarrow> 'c \<Rightarrow> (js_error + unit) \<times> 'c"
  redis_del :: "string \<Rightarrow> 'c \<Rightarrow> (js_error + unit) \<times> 'c"
  redis_keys :: "string \<Rightarrow> 'c \<Rightarrow> (js_error + string list) \<times> 'c"
  redis_flushall :: "'c \<Rightarrow> (js_error + unit) \<times> 'c"

record 'c RedisCacheAdapter = logger +
  client :: 'c
  isConnected :: bool

definition RedisCacheAdapter_get ::
  "'c RedisClient \<Rightarrow> (string \<Rightarrow> js_error + json) \<Rightarrow> string \<Rightarrow> 'c RedisCacheAdapter \<Rightarrow>
     (js_error + json option) \<times> 'c RedisCacheAdapter" where
  "RedisCacheAdapter_get io parse key a =
     (case redis_get io key (client a) of
        (Inl error, c') \<Rightarrow>
          (Inr None, a\<lparr>client := c', console_error := console_error a @ [''Redis get error:'']\<rparr>)
      | (Inr None, c') \<Rightarrow> (Inr None, a\<lparr>client := c'\<rparr>)
      | (Inr (Some v), c') \<Rightarrow>
          if v \<noteq> [] then
            (case parse v of
               Inl error \<Rightarrow>
                 (Inr None, a\<lparr>client := c', console_error := console_error a @ [''Redis get error:'']\<rparr>)
             | Inr parsed \<Rightarrow> (Inr (Some parsed), a\<lparr>client := c'\<rparr>))
          else (Inr None, a\<lparr>client := c'\<rparr>))"

definition RedisCacheAdapter_set ::
  "'c RedisClient \<Rightarrow> string \<Rightarrow> json \<Rightarrow> int \<Rightarrow> 'c RedisCacheAdapter \<Rightarrow>
     (js_error + unit) \<times> 'c RedisCacheAdapter" where
  "RedisCacheAdapter_set io key v ttl a =
     (case redis_setex io key ttl (JSON_stringify v) (client a) of
        (Inl error, c') \<Rightarrow>
          (Inr (), a\<lparr>client := c', console_error := console_error a @ [''Redis set error:'']\<rparr>)
      | (Inr u, c') \<Rightarrow> (Inr (), a\<lparr>client := c'\<rparr>))"

definition RedisCacheAdapter_del ::
  "'c RedisClient \<Rightarrow> string \<Rightarrow> 'c RedisCacheAdapter \<Rightarrow> (js_error + unit) \<times> 'c RedisCacheAdapter" where
  "RedisCacheAdapter_del io key a =
     (case redis_del io key (client a) of
        (Inl error, c') \<Rightarrow>
          (Inr (), a\<lparr>client := c', console_error := console_error a @ [''Redis del error:'']\<rparr>)
      | (Inr u, c') \<Rightarrow> (Inr (), a\<lparr>client := c'\<rparr>))"

definition RedisCacheAdapter_keys ::
  "'c RedisClient \<Rightarrow> 'c RedisCacheAdapter \<Rightarrow> (js_error + string list) \<times> 'c RedisCacheAdapter" where
  "RedisCacheAdapter_keys io a =
     (case redis_keys io ''*'' (client a) of
        (Inl error, c') \<Rightarrow>
          (Inr [], a\<lparr>client := c', console_error := console_error a @ [''Redis keys error:'']\<rparr>)
      | (Inr ks, c') \<Rightarrow> (Inr ks, a\<lparr>client := c'\<rparr>))"

definition RedisCacheAdapter_flushAll ::
  "'c RedisClient \<Rightarrow> 'c RedisCacheAdapter \<Rightarrow> (js_error + unit) \<times> 'c RedisCacheAdapter" where
  "RedisCacheAdapter_flushAll io a =
     (case redis_flushall io (client a) of
        (Inl error, c') \<Rightarrow>
          (Inr (), a\<lparr>client := c', console_error := console_error a @ [''Redis flushAll error:'']\<rparr>)
      | (Inr u, c') \<Rightarrow> (Inr (), a\<lparr>client := c'\<rparr>))"

definition RedisCacheAdapter_ops ::
  "'c RedisClient \<Rightarrow> (string \<Rightarrow> js_error + json) \<Rightarrow> 'c RedisCacheAdapter CacheAdapter" where
  "RedisCacheAdapter_ops io parse =
     \<lparr>get_op = RedisCacheAdapter_get io parse, set_op = RedisCacheAdapter_set io,
      del_op = RedisCacheAdapter_del io, keys_op = RedisCacheAdapter_keys io,
      flushAll_op = RedisCacheAdapter_flushAll io\<rparr>"

text \<open>\<^verbatim>\<open>retryStrategy\<close> of the \<^verbatim>\<open>RedisCacheAdapter\<close> constructor: \<open>None\<close> is the
  \<^verbatim>\<open>null\<close> that tells the client to stop reconnecting. The three listeners the
  constructor registers are the only code that writes \<^verbatim>\<open>isConnected\<close>.\<close>

definition retryStrategy :: "int \<Rightarrow> int \<Rightarrow> int option" where
  "retryStrategy maxReconnectAttempts times_n =
     (if times_n > maxReconnectAttempts then None
      else Some (min (times_n * 100) 3000))"

datatype client_event = Connect | ErrorEvent js_error | Close

fun on_event :: "client_event \<Rightarrow> 'c RedisCacheAdapter \<Rightarrow> 'c RedisCacheAdapter" where
  "on_event Connect a = a\<lparr>isConnected := True\<rparr>"
| "on_event (ErrorEvent err) a =
     a\<lparr>isConnected := False, console_error := console_error a @ [''Redis connection error:'']\<rparr>"
| "on_event Close a = a\<lparr>isConnected := False\<rparr>"

section \<open>The cache manager\<close>

record 's AdvancedCache =
  cacheAdapter :: "'s CacheAdapter"
  defaultConfig :: CacheConfig
  isAsync :: bool

text \<open>The constructor sets \<^verbatim>\<open>defaultConfig\<close> from the options and picks the adapter
  from \<^verbatim>\<open>REDIS_ENABLED\<close>; the two choices have stores of different types.\<close>

definition defaultConfig_of :: "CacheOptions \<Rightarrow> CacheConfig" where
  "defaultConfig_of options =
     \<lparr>duration = defaultTTL options, keyParams = Some [], ignoreParams = Some [],
      varyByHeaders = Some [], customKeyGenerator = None\<rparr>"

definition AdvancedCache_node :: "CacheOptions \<Rightarrow> NodeCacheAdapter AdvancedCache" where
  "AdvancedCache_node options =
     \<lparr>cacheAdapter = NodeCacheAdapter_ops, defaultConfig = defaultConfig_of options,
      isAsync = False\<rparr>"

definition AdvancedCache_redis ::
  "'c RedisClient \<Rightarrow> (string \<Rightarrow> js_error + json) \<Rightarrow> CacheOptions \<Rightarrow> 'c RedisCacheAdapter AdvancedCache" where
  "AdvancedCache_redis io parse options =
     \<lparr>cacheAdapter = RedisCacheAdapter_ops io parse, defaultConfig = defaultConfig_of options,
      isAsync = True\<rparr>"

text \<open>\<^verbatim>\<open>Partial<CacheConfig>\<close>, the optional argument of \<^verbatim>\<open>middleware\<close>: a field is
  \<open>None\<close> when the route does not give it. \<open>finalConfig\<close> is the spread
  \<^verbatim>\<open>{ ...this.defaultConfig, ...config }\<close>.\<close>

record PartialCacheConfig =
  p_duration :: "int option"
  p_keyParams :: "string list option"
  p_ignoreParams :: "string list option"
  p_varyByHeaders :: "string list option"
  p_customKeyGenerator :: "(request \<Rightarrow> js_error + string) option"

definition spread :: "CacheConfig \<Rightarrow> PartialCacheConfig \<Rightarrow> CacheConfig" where
  "spread d p =
     \<lparr>duration = (case p_duration p of None \<Rightarrow> duration d | Some x \<Rightarrow> x),
      keyParams = (case p_keyParams p of None \<Rightarrow> keyParams d | Some x \<Rightarrow> Some x),
      ignoreParams = (case p_ignoreParams p of None \<Rightarrow> ignoreParams d | Some x \<Rightarrow> Some x),
      varyByHeaders = (case p_varyByHeaders p of None \<Rightarrow> varyByHeaders d | Some x \<Rightarrow> Some x),
      customKeyGenerator =
        (case p_customKeyGenerator p of None \<Rightarrow> customKeyGenerator d | Some x \<Rightarrow> Some x)\<rparr>"

definition finalConfig :: "'s AdvancedCache \<Rightarrow> PartialCacheConfig option \<Rightarrow> CacheConfig" where
  "finalConfig this config =
     (case config of None \<Rightarrow> defaultConfig this | Some p \<Rightarrow> spread (defaultConfig this) p)"

text \<open>\<^verbatim>\<open>config?.customKeyGenerator\<close>, as the method test of the middleware reads it.\<close>

definition route_customKeyGenerator ::
  "PartialCacheConfig option \<Rightarrow> (request \<Rightarrow> js_error + string) option" where
  "route_customKeyGenerator config =
     (case config of None \<Rightarrow> None | Some p \<Rightarrow> p_customKeyGenerator p)"

subsection \<open>The middleware\<close>

text \<open>
  What one run of the request handler returned by \<^verbatim>\<open>middleware(config)\<close> did, on a
  response whose \<^verbatim>\<open>res.json\<close> is still the framework's own: the key it derived, the
  adapter operations it invoked, the payload it sent itself with \<^verbatim>\<open>res.json\<close>, the
  wrapper it installed on \<^verbatim>\<open>res.json\<close> (the key and the duration the closure holds),
  whether it called \<^verbatim>\<open>next()\<close>, what it wrote with \<^verbatim>\<open>console.error\<close>, and the store it
  left. The framework's \<^verbatim>\<open>res.json\<close> sends a JSON value without throwing. The handler
  is an \<^verbatim>\<open>async\<close> function: the \<open>Inl\<close> result is its rejection, which only a
  throwing custom key generator can cause.
\<close>

datatype adapter_call = Get string | Set string json int | Del string | Keys | FlushAll

record 's outcome =
  cacheKey :: "string option"
  adapter_calls :: "adapter_call list"
  sent :: "json option"
  interceptor :: "(string \<times> int) option"
  next_called :: bool
  console :: "string list"
  store :: 's

definition passthrough :: "'s \<Rightarrow> 's outcome" where
  "passthrough s =
     \<lparr>cacheKey = None, adapter_calls = [], sent = None, interceptor = None,
      next_called = True, console = [], store = s\<rparr>"

definition respond_cached :: "string \<Rightarrow> json \<Rightarrow> 's \<Rightarrow> 's outcome" where
  "respond_cached key cachedResponse s =
     \<lparr>cacheKey = Some key, adapter_calls = [Get key], sent = Some cachedResponse,
      interceptor = None, next_called = False, console = [], store = s\<rparr>"

definition intercept :: "string \<Rightarrow> int \<Rightarrow> string list \<Rightarrow> 's \<Rightarrow> 's outcome" where
  "intercept key ttl logged s =
     \<lparr>cacheKey = Some key, adapter_calls = [Get key], sent = None,
      interceptor = Some (key, ttl), next_called = True, console = logged, store = s\<rparr>"

definition middleware ::
  "'s AdvancedCache \<Rightarrow> PartialCacheConfig option \<Rightarrow> request \<Rightarrow> 's \<Rightarrow> js_error + 's outcome" where
  "middleware this config req s =
     (if req_method req \<noteq> ''GET'' \<and> route_customKeyGenerator config = None
      then Inr (passthrough s)
      else
        (case generateCacheKey req (finalConfig this config) of
           Inl thrown \<Rightarrow> Inl thrown
         | Inr key \<Rightarrow>
             (case get_op (cacheAdapter this) key s of
                (Inr (Some cachedResponse), s') \<Rightarrow>
                  if truthy cachedResponse then Inr (respond_cached key cachedResponse s')
                  else Inr (intercept key (duration (finalConfig this config)) [] s')
              | (Inr None, s') \<Rightarrow>
                  Inr (intercept key (duration (finalConfig this config)) [] s')
              | (Inl error, s') \<Rightarrow>
                  Inr (intercept key (duration (finalConfig this config))
                         [''Error retrieving from cache:''] s'))))"

text \<open>
  The replaced \<^verbatim>\<open>res.json\<close>: it calls the adapter's \<^verbatim>\<open>set\<close> and then the original
  \<^verbatim>\<open>res.json\<close>. With an asynchronous adapter a rejected write is logged by the
  \<^verbatim>\<open>.catch\<close> handler after the payload has gone out; with a synchronous adapter a
  throwing \<^verbatim>\<open>set\<close> leaves the wrapper before the original \<^verbatim>\<open>res.json\<close> is reached.
\<close>

record 's emitted =
  payload :: "json option"
  thrown :: "js_error option"
  set_calls :: "adapter_call list"
  logged :: "string list"
  store_after :: 's

definition res_json ::
  "'s AdvancedCache \<Rightarrow> (string \<times> int) option \<Rightarrow> json \<Rightarrow> 's \<Rightarrow> 's emitted" where
  "res_json this wrapper body_v s =
     (case wrapper of
        None \<Rightarrow>
          \<lparr>payload = Some body_v, thrown = None, set_calls = [], logged = [], store_after = s\<rparr>
      | Some (key, ttl) \<Rightarrow>
          (case set_op (cacheAdapter this) key body_v ttl s of
             (Inr u, s') \<Rightarrow>
               \<lparr>payload = Some body_v, thrown = None, set_calls = [Set key body_v ttl],
                logged = [], store_after = s'\<rparr>
           | (Inl error, s') \<Rightarrow>
               if isAsync this
               then \<lparr>payload = Some body_v, thrown = None, set_calls = [Set key body_v ttl],
                     logged = [''Error setting cache:''], store_after = s'\<rparr>
               else \<lparr>payload = None, thrown = Some error, set_calls = [Set key body_v ttl],
                     logged = [], store_after = s'\<rparr>))"

text \<open>
  One request through the middleware and the downstream handler. The handler is the
  rest of the chain: given the request it either sends a JSON payload with
  \<^verbatim>\<open>res.json\<close> or does not. \<open>handler_ran\<close> records that \<^verbatim>\<open>next()\<close> reached it.
\<close>

record 's served =
  response :: "json option"
  handler_ran :: bool
  calls :: "adapter_call list"
  errors_logged :: "string list"
  final_store :: 's

definition serve ::
  "'s AdvancedCache \<Rightarrow> PartialCacheConfig option \<Rightarrow> (request \<Rightarrow> json option) \<Rightarrow> request \<Rightarrow> 's \<Rightarrow>
     js_error + 's served" where
  "serve this config handler req s =
     (case middleware this config req s of
        Inl e \<Rightarrow> Inl e
      | Inr out \<Rightarrow>
          if next_called out then
            (case handler req of
               None \<Rightarrow>
                 Inr \<lparr>response = None, handler_ran = True, calls = adapter_calls out,
                      errors_logged = console out, final_store = store out\<rparr>
             | Some body_v \<Rightarrow>
                 (let em = res_json this (interceptor out) body_v (store out) in
                  case thrown em of
                    Some e \<Rightarrow> Inl e
                  | None \<Rightarrow>
                      Inr \<lparr>response = payload em, handler_ran = True,
                           calls = adapter_calls out @ set_calls em,
                           errors_logged = console out @ logged em,
                           final_store = store_after em\<rparr>))
          else
            Inr \<lparr>response = sent out, handler_ran = False, calls = adapter_calls out,
                 errors_logged = console out, final_store = store out\<rparr>)"

subsection \<open>Invalidation\<close>

text \<open>
  A \<^verbatim>\<open>RegExp\<close> object: \<open>matcher\<close> is the compiled pattern (the end of a match that
  starts at the given index, if there is one), the flags \<^verbatim>\<open>g\<close> and \<^verbatim>\<open>y\<close>, and the
  mutable \<^verbatim>\<open>lastIndex\<close>. \<open>RegExp_test\<close> is \<^verbatim>\<open>RegExp.prototype.test\<close>
  (RegExpBuiltinExec of ECMAScript): without \<^verbatim>\<open>g\<close> and \<^verbatim>\<open>y\<close> the search starts at
  index 0 and \<^verbatim>\<open>lastIndex\<close> is not written; with one of them it starts at
  \<^verbatim>\<open>lastIndex\<close>, which a match sets to its end and a failure to 0.
\<close>

record RegExp =
  matcher :: "string \<Rightarrow> nat \<Rightarrow> nat option"
  global :: bool
  sticky :: bool
  lastIndex :: nat

function search_from :: "(string \<Rightarrow> nat \<Rightarrow> nat option) \<Rightarrow> string \<Rightarrow> nat \<Rightarrow> nat option" where
  "search_from m str i =
     (if i > length str then None
      else (case m str i of Some e \<Rightarrow> Some e | None \<Rightarrow> search_from m str (i + 1)))"
  by pat_completeness auto
termination
  by (relation "measure (\<lambda>(m, str, i). length str + 1 - i)") auto

declare search_from.simps [simp del]

definition RegExp_test :: "RegExp \<Rightarrow> string \<Rightarrow> bool \<times> RegExp" where
  "RegExp_test r str =
     (let start = (if global r \<or> sticky r then lastIndex r else 0);
          found = (if sticky r
                   then (if start > length str then None else matcher r str start)
                   else search_from (matcher r) str start)
      in case found of
           None \<Rightarrow> (False, if global r \<or> sticky r then r\<lparr>lastIndex := 0\<rparr> else r)
         | Some e \<Rightarrow> (True, if global r \<or> sticky r then r\<lparr>lastIndex := e\<rparr> else r))"

text \<open>A pattern matches a string when a search from index 0 finds a match: what
  \<^verbatim>\<open>test\<close> answers for a pattern without flags.\<close>

definition matches :: "RegExp \<Rightarrow> string \<Rightarrow> bool" where
  "matches r str = (search_from (matcher r) str 0 \<noteq> None)"

text \<open>
  The two loops of \<^verbatim>\<open>clearCache(pattern)\<close>. \<^verbatim>\<open>keys.forEach\<close> stops at the first
  \<^verbatim>\<open>del\<close> that throws; \<^verbatim>\<open>keys.map\<close> starts every deletion and \<^verbatim>\<open>Promise.all\<close>
  rejects with the first failure.
\<close>

record 's cleared =
  rejected :: "js_error option"
  pattern_after :: "RegExp option"
  del_calls :: "string list"
  cleared_store :: 's

fun clear_forEach ::
  "'s CacheAdapter \<Rightarrow> RegExp \<Rightarrow> string list \<Rightarrow> string list \<Rightarrow> 's \<Rightarrow> 's cleared" where
  "clear_forEach ad r [] dels s =
     \<lparr>rejected = None, pattern_after = Some r, del_calls = dels, cleared_store = s\<rparr>"
| "clear_forEach ad r (key # keys) dels s =
     (case RegExp_test r key of
        (True, r') \<Rightarrow>
          (case del_op ad key s of
             (Inl error, s') \<Rightarrow>
               \<lparr>rejected = Some error, pattern_after = Some r', del_calls = dels @ [key],
                cleared_store = s'\<rparr>
           | (Inr u, s') \<Rightarrow> clear_forEach ad r' keys (dels @ [key]) s')
      | (False, r') \<Rightarrow> clear_forEach ad r' keys dels s)"

fun clear_map ::
  "'s CacheAdapter \<Rightarrow> RegExp \<Rightarrow> string list \<Rightarrow> string list \<Rightarrow> js_error option \<Rightarrow> 's \<Rightarrow> 's cleared" where
  "clear_map ad r [] dels err s =
     \<lparr>rejected = err, pattern_after = Some r, del_calls = dels, cleared_store = s\<rparr>"
| "clear_map ad r (key # keys) dels err s =
     (case RegExp_test r key of
        (True, r') \<Rightarrow>
          (case del_op ad key s of
             (Inl error, s') \<Rightarrow>
               clear_map ad r' keys (dels @ [key])
                 (case err of None \<Rightarrow> Some error | Some e \<Rightarrow> Some e) s'
           | (Inr u, s') \<Rightarrow> clear_map ad r' keys (dels @ [key]) err s')
      | (False, r') \<Rightarrow> clear_map ad r' keys dels err s)"

definition clearCache :: "'s AdvancedCache \<Rightarrow> RegExp option \<Rightarrow> 's \<Rightarrow> 's cleared" where
  "clearCache this pattern s =
     (case pattern of
        None \<Rightarrow>
          (case flushAll_op (cacheAdapter this) s of
             (Inl error, s') \<Rightarrow>
               \<lparr>rejected = Some error, pattern_after = None, del_calls = [], cleared_store = s'\<rparr>
           | (Inr u, s') \<Rightarrow>
               \<lparr>rejected = None, pattern_after = None, del_calls = [], cleared_store = s'\<rparr>)
      | Some r \<Rightarrow>
          (case keys_op (cacheAdapter this) s of
             (Inl error, s') \<Rightarrow>
               \<lparr>rejected = Some error, pattern_after = Some r, del_calls = [], cleared_store = s'\<rparr>
           | (Inr keys, s') \<Rightarrow>
               if isAsync this then clear_map (cacheAdapter this) r keys [] None s'
               else clear_forEach (cacheAdapter this) r keys [] s'))"

section \<open>Runs of events and of writes\<close>

text \<open>The listeners applied to a sequence of client events, and a sequence of writes
  through the in-process adapter.\<close>

definition run_events :: "client_event list \<Rightarrow> 'c RedisCacheAdapter \<Rightarrow> 'c RedisCacheAdapter" where
  "run_events evs a = foldl (\<lambda>a e. on_event e a) a evs"

definition insert_all :: "(string \<times> json \<times> int) list \<Rightarrow> NodeCacheAdapter \<Rightarrow> NodeCacheAdapter" where
  "insert_all kvs a = foldl (\<lambda>a (k, v, ttl). snd (NodeCacheAdapter_set k v ttl a)) a kvs"

section \<open>Concrete inputs\<close>

text \<open>The scenario of the specification: a default TTL of 60 seconds and room for two
  keys; a request for \<^verbatim>\<open>GET /anime\<close> without parameters; stores that are down.\<close>

definition example_options :: CacheOptions where
  "example_options = \<lparr>defaultTTL = 60, checkPeriod = Some 600, maxKeys = Some 2\<rparr>"

definition example_cache :: "NodeCacheAdapter AdvancedCache" where
  "example_cache = AdvancedCache_node example_options"

definition example_request :: request where
  "example_request =
     \<lparr>req_method = ''GET'', path = ''/anime'', query = Some [], body = None,
      req_get = (\<lambda>h. None)\<rparr>"

definition example_key :: string where
  "example_key = ''GET|/anime|{}|{}|{}''"

definition example_store :: "json \<Rightarrow> NodeCacheAdapter" where
  "example_store v =
     snd (NodeCacheAdapter_set example_key v 60 (NodeCacheAdapter_new example_options 0))"

definition example_handler :: "request \<Rightarrow> json option" where
  "example_handler req = Some (JStr ''fresh'')"

definition example_writes :: "(string \<times> json \<times> int) list" where
  "example_writes = [(''k1'', JNum 1, 60), (''k2'', JNum 2, 60), (''k3'', JNum 3, 60)]"

definition unreachable_adapter :: "unit CacheAdapter" where
  "unreachable_adapter =
     \<lparr>get_op = (\<lambda>k s. (Inl (Error ''ECONNREFUSED''), s)),
      set_op = (\<lambda>k v t s. (Inl (Error ''ECONNREFUSED''), s)),
      del_op = (\<lambda>k s. (Inl (Error ''ECONNREFUSED''), s)),
      keys_op = (\<lambda>s. (Inl (Error ''ECONNREFUSED''), s)),
      flushAll_op = (\<lambda>s. (Inl (Error ''ECONNREFUSED''), s))\<rparr>"

definition empty_adapter :: "unit CacheAdapter" where
  "empty_adapter =
     \<lparr>get_op = (\<lambda>k s. (Inr None, s)),
      set_op = (\<lambda>k v t s. (Inr (), s)),
      del_op = (\<lambda>k s. (Inr (), s)),
      keys_op = (\<lambda>s. (Inr [], s)),
      flushAll_op = (\<lambda>s. (Inr (), s))\<rparr>"

definition unreachable_cache :: "unit AdvancedCache" where
  "unreachable_cache =
     \<lparr>cacheAdapter = unreachable_adapter, defaultConfig = defaultConfig_of example_options,
      isAsync = True\<rparr>"

definition empty_cache :: "unit AdvancedCache" where
  "empty_cache =
     \<lparr>cacheAdapter = empty_adapter, defaultConfig = defaultConfig_of example_options,
      isAsync = True\<rparr>"




definition fresh_redis :: "unit RedisCacheAdapter" where
  "fresh_redis = \<lparr>console_error = [], client = (), isConnected = False\<rparr>"

text \<open>The pattern \<^verbatim>\<open>/^GET \/a/\<close>: it matches at index 0 only, and the match ends at
  index 6. \<open>GET_a_global\<close> is \<^verbatim>\<open>/^GET \/a/g\<close>.\<close>

definition GET_a :: RegExp where
  "GET_a =
     \<lparr>matcher = (\<lambda>str i. if i = 0 \<and> take 6 str = ''GET /a'' then Some 6 else None),
      global = False, sticky = False, lastIndex = 0\<rparr>"

definition GET_a_global :: RegExp where
  "GET_a_global = GET_a\<lparr>global := True\<rparr>"

definition store_of_keys :: "string list \<Rightarrow> NodeCacheAdapter" where
  "store_of_keys ks =
     \<lparr>console_error = [],
      cache = \<lparr>data = map (\<lambda>k. (k, JStr ''payload'', 0)) ks, opt_stdTTL = 60,
               opt_checkperiod = 600, opt_maxKeys = 1000, now = 0\<rparr>\<rparr>"









section \<open>Notions used in the proofs\<close>







section \<open>The reconnection policy\<close>

lemma run_events_no_connect:
  "Connect \<notin> set evs \<Longrightarrow> \<not> isConnected a \<Longrightarrow> \<not> isConnected (run_events evs a)"
  unfolding run_events_def
proof (induction evs arbitrary: a)
  case Nil
  then show ?case by simp
next
  case (Cons e evs)
  then show ?case by (cases e) auto
qed

text \<open>
  Claim C8. For every attempt number up to the configured maximum the policy returns
  the delay \<open>min (t * 100) 3000\<close>; for every larger attempt number it returns the stop
  signal. The client emits \<^verbatim>\<open>close\<close> before it asks the policy, and after the stop
  signal it emits no further \<^verbatim>\<open>connect\<close>: whatever other events follow, the adapter
  stays not connected.
\<close>

theorem retryStrategy_backoff:
  "(times_n \<le> maxReconnectAttempts \<longrightarrow>
      retryStrategy maxReconnectAttempts times_n = Some (min (times_n * 100) 3000)) \<and>
   (times_n > maxReconnectAttempts \<longrightarrow>
      retryStrategy maxReconnectAttempts times_n = None \<and>
      (Connect \<notin> set evs \<longrightarrow> \<not> isConnected (run_events (Close # evs) a)))"
proof -
  have "Connect \<notin> set evs \<longrightarrow> \<not> isConnected (run_events (Close # evs) a)"
  proof
    assume nc: "Connect \<notin> set evs"
    have "\<not> isConnected (on_event Close a)" by simp
    from run_events_no_connect [OF nc this]
    show "\<not> isConnected (run_events (Close # evs) a)" by (simp add: run_events_def)
  qed
  then show ?thesis by (simp add: retryStrategy_def)
qed

theorem retryStrategy_backoff_witness:
  "retryStrategy 50 3 = Some 300 \<and> retryStrategy 50 50 = Some 3000 \<and>
   retryStrategy 50 51 = None \<and>
   \<not> isConnected (run_events [Close, ErrorEvent (Error ''ECONNREFUSED''), Close]
       (fresh_redis\<lparr>isConnected := True\<rparr>))"
  using retryStrategy_backoff [of 3 50 "[]" fresh_redis]
    retryStrategy_backoff [of 50 50 "[]" fresh_redis]
    retryStrategy_backoff [of 51 50 "[ErrorEvent (Error ''ECONNREFUSED''), Close]"
      "fresh_redis\<lparr>isConnected := True\<rparr>"]
  by simp

section \<open>Properties of the middleware\<close>

lemma middleware_handled:
  assumes "req_method req = ''GET'' \<or> route_customKeyGenerator config \<noteq> None"
    and "generateCacheKey req (finalConfig this config) = Inr key"
  shows "middleware this config req s =
     (case get_op (cacheAdapter this) key s of
        (Inr (Some cachedResponse), s') \<Rightarrow>
          if truthy cachedResponse then Inr (respond_cached key cachedResponse s')
          else Inr (intercept key (duration (finalConfig this config)) [] s')
      | (Inr None, s') \<Rightarrow>
          Inr (intercept key (duration (finalConfig this config)) [] s')
      | (Inl error, s') \<Rightarrow>
          Inr (intercept key (duration (finalConfig this config))
                 [''Error retrieving from cache:''] s'))"
  using assms by (auto simp: middleware_def)

lemma example_finalConfig:
  "finalConfig example_cache None = defaultConfig_of example_options"
  by (simp add: finalConfig_def example_cache_def AdvancedCache_node_def)

lemma example_generateCacheKey:
  "generateCacheKey example_request (finalConfig example_cache None) = Inr example_key"
  by (simp add: example_finalConfig generateCacheKey_def defaultConfig_of_def
      example_request_def queryParams_def bodyParams_def headers_def Object_keys_def
      example_key_def)

lemma example_store_get:
  "get_op (cacheAdapter example_cache) example_key (example_store v) =
     (Inr (Some v), example_store v)"
  by (simp add: example_cache_def AdvancedCache_node_def NodeCacheAdapter_ops_def
      NodeCacheAdapter_get_def NodeCache_get_def example_store_def NodeCacheAdapter_set_def
      NodeCache_set_def NodeCacheAdapter_new_def example_options_def)

text \<open>
  Claim C3. A request whose method is not GET, on a route without a custom key
  generator: the middleware calls \<^verbatim>\<open>next()\<close> and does nothing else. No key is
  derived, no adapter operation is invoked, \<^verbatim>\<open>res.json\<close> is not wrapped and the store
  is as it was; whatever the downstream handler sends goes out unrecorded.
\<close>

theorem non_GET_bypass:
  assumes "req_method req \<noteq> ''GET''" and "route_customKeyGenerator config = None"
  shows "middleware this config req s =
           Inr \<lparr>cacheKey = None, adapter_calls = [], sent = None, interceptor = None,
                next_called = True, console = [], store = s\<rparr> \<and>
         serve this config handler req s =
           Inr \<lparr>response = handler req, handler_ran = True, calls = [], errors_logged = [],
                final_store = s\<rparr>"
  using assms
  by (simp add: middleware_def serve_def passthrough_def res_json_def split: option.splits)

theorem non_GET_bypass_witness:
  "middleware example_cache None (example_request\<lparr>req_method := ''POST''\<rparr>)
       (example_store (JStr ''cached'')) =
     Inr \<lparr>cacheKey = None, adapter_calls = [], sent = None, interceptor = None,
          next_called = True, console = [], store = example_store (JStr ''cached'')\<rparr> \<and>
   serve example_cache None example_handler (example_request\<lparr>req_method := ''POST''\<rparr>)
       (example_store (JStr ''cached'')) =
     Inr \<lparr>response = example_handler (example_request\<lparr>req_method := ''POST''\<rparr>),
          handler_ran = True, calls = [], errors_logged = [],
          final_store = example_store (JStr ''cached'')\<rparr>"
proof -
  have m: "req_method (example_request\<lparr>req_method := ''POST''\<rparr>) \<noteq> ''GET''" by simp
  have c: "route_customKeyGenerator None = None" by (simp add: route_customKeyGenerator_def)
  show ?thesis by (rule non_GET_bypass [OF m c])
qed

text \<open>
  Claim C2. A GET request whose derived key the adapter's \<^verbatim>\<open>get\<close> answers with a
  truthy value: the middleware sends exactly that value with \<^verbatim>\<open>res.json\<close>, installs
  no wrapper and does not call \<^verbatim>\<open>next()\<close>; the downstream handler does not run,
  whatever it is.
\<close>

theorem cache_hit_short_circuits:
  assumes "req_method req = ''GET''"
    and "generateCacheKey req (finalConfig this config) = Inr key"
    and "get_op (cacheAdapter this) key s = (Inr (Some v), s')"
    and "truthy v"
  shows "middleware this config req s =
           Inr \<lparr>cacheKey = Some key, adapter_calls = [Get key], sent = Some v,
                interceptor = None, next_called = False, console = [], store = s'\<rparr> \<and>
         serve this config handler req s =
           Inr \<lparr>response = Some v, handler_ran = False, calls = [Get key],
                errors_logged = [], final_store = s'\<rparr>"
proof -
  have m: "middleware this config req s = Inr (respond_cached key v s')"
    using assms by (simp add: middleware_handled)
  then show ?thesis by (simp add: serve_def respond_cached_def)
qed

theorem cache_hit_short_circuits_witness:
  "middleware example_cache None example_request (example_store (JStr ''cached'')) =
     Inr \<lparr>cacheKey = Some example_key, adapter_calls = [Get example_key],
          sent = Some (JStr ''cached''), interceptor = None, next_called = False,
          console = [], store = example_store (JStr ''cached'')\<rparr> \<and>
   serve example_cache None example_handler example_request (example_store (JStr ''cached'')) =
     Inr \<lparr>response = Some (JStr ''cached''), handler_ran = False, calls = [Get example_key],
          errors_logged = [], final_store = example_store (JStr ''cached'')\<rparr>"
proof -
  have m: "req_method example_request = ''GET''" by (simp add: example_request_def)
  have t: "truthy (JStr ''cached'')" by simp
  show ?thesis
    by (rule cache_hit_short_circuits [OF m example_generateCacheKey example_store_get t])
qed

text \<open>
  Claim C5. A request the middleware handles (GET, or a route with a custom key
  generator) whose \<^verbatim>\<open>get\<close> raises: the middleware returns normally and does what it
  does on a genuine miss, that is, what it does with an adapter that answers the same
  lookup with absence: it installs the wrapper and calls \<^verbatim>\<open>next()\<close>. The only
  difference is the line written with \<^verbatim>\<open>console.error\<close>.
\<close>

theorem get_error_fails_open:
  assumes "req_method req = ''GET'' \<or> route_customKeyGenerator config \<noteq> None"
    and "generateCacheKey req (finalConfig this config) = Inr key"
    and "get_op (cacheAdapter this) key s = (Inl e, s')"
    and "defaultConfig that = defaultConfig this"
    and "get_op (cacheAdapter that) key s = (Inr None, s')"
  shows "\<exists>miss. middleware that config req s = Inr miss \<and>
           next_called miss \<and> sent miss = None \<and> console miss = [] \<and>
           interceptor miss = Some (key, duration (finalConfig this config)) \<and>
           middleware this config req s =
             Inr (miss\<lparr>console := [''Error retrieving from cache:'']\<rparr>)"
proof -
  have fc: "finalConfig that config = finalConfig this config"
    using assms(4) by (simp add: finalConfig_def split: option.splits)
  have "middleware that config req s =
      Inr (intercept key (duration (finalConfig this config)) [] s')"
    using assms(1,2,5) fc by (simp add: middleware_handled)
  moreover have "middleware this config req s =
      Inr (intercept key (duration (finalConfig this config))
             [''Error retrieving from cache:''] s')"
    using assms(1,2,3) by (simp add: middleware_handled)
  ultimately show ?thesis by (simp add: intercept_def)
qed

theorem get_error_fails_open_witness:
  "\<exists>miss. middleware empty_cache None example_request () = Inr miss \<and>
     next_called miss \<and> sent miss = None \<and> console miss = [] \<and>
     interceptor miss = Some (example_key, duration (finalConfig unreachable_cache None)) \<and>
     middleware unreachable_cache None example_request () =
       Inr (miss\<lparr>console := [''Error retrieving from cache:'']\<rparr>)"
proof -
  have m: "req_method example_request = ''GET'' \<or> route_customKeyGenerator None \<noteq> None"
    by (simp add: example_request_def)
  have fc: "finalConfig unreachable_cache None = finalConfig example_cache None"
    by (simp add: finalConfig_def unreachable_cache_def example_cache_def AdvancedCache_node_def)
  have k: "generateCacheKey example_request (finalConfig unreachable_cache None) =
      Inr example_key"
    by (simp only: fc example_generateCacheKey)
  have g: "get_op (cacheAdapter unreachable_cache) example_key () =
      (Inl (Error ''ECONNREFUSED''), ())"
    by (simp add: unreachable_cache_def unreachable_adapter_def)
  have d: "defaultConfig empty_cache = defaultConfig unreachable_cache"
    by (simp add: empty_cache_def unreachable_cache_def)
  have g': "get_op (cacheAdapter empty_cache) example_key () = (Inr None, ())"
    by (simp add: empty_cache_def empty_adapter_def)
  show ?thesis by (rule get_error_fails_open [OF m k g d g'])
qed



section \<open>Request bodies and built-in keys\<close>

lemma final_custom_None:
  "customKeyGenerator (finalConfig this config) = None \<Longrightarrow>
     route_customKeyGenerator config = None"
  by (auto simp: finalConfig_def route_customKeyGenerator_def spread_def split: option.splits)

lemma middleware_cacheKey:
  assumes "middleware this config req s = Inr out" and "cacheKey out = Some key"
  shows "(req_method req = ''GET'' \<or> route_customKeyGenerator config \<noteq> None) \<and>
         generateCacheKey req (finalConfig this config) = Inr key"
  using assms
  by (auto simp: middleware_def passthrough_def respond_cached_def intercept_def
      split: if_splits sum.splits option.splits prod.splits)

lemma queryParams_body [simp]:
  "queryParams (req\<lparr>body := b\<rparr>) config = queryParams req config"
  by (simp add: queryParams_def)

lemma copy_header_body [simp]: "copy_header (req\<lparr>body := b\<rparr>) = copy_header req"
  by (intro ext) (simp add: copy_header_def)

lemma headers_body [simp]: "headers (req\<lparr>body := b\<rparr>) config = headers req config"
  by (simp add: headers_def split: option.splits)

lemma bodyParams_GET: "req_method req = ''GET'' \<Longrightarrow> bodyParams req config = []"
  by (simp add: bodyParams_def split: option.splits)

lemma generateCacheKey_body:
  assumes "req_method req = ''GET''" and "customKeyGenerator config = None"
  shows "generateCacheKey (req\<lparr>body := b\<rparr>) config = generateCacheKey req config"
proof -
  have "bodyParams (req\<lparr>body := b\<rparr>) config = bodyParams req config"
    using assms(1) by (simp add: bodyParams_GET)
  then show ?thesis using assms(2) by (simp add: generateCacheKey_def)
qed

lemma middleware_body_irrelevant:
  assumes "req_method req = ''GET''" and "customKeyGenerator (finalConfig this config) = None"
  shows "middleware this config (req\<lparr>body := b\<rparr>) s = middleware this config req s"
  using assms generateCacheKey_body [OF assms]
  by (simp add: middleware_def)

text \<open>
  Claim C10. Whenever the middleware derives a key with the built-in derivation (the
  final configuration has no custom key generator), the request is a GET, its selected
  body parameters are empty, the fourth component of the key is the text \<^verbatim>\<open>{}\<close>, and
  replacing the request body by any other leaves the whole run of the middleware, key
  included, unchanged.
\<close>

theorem builtin_key_has_empty_body_component:
  assumes "customKeyGenerator (finalConfig this config) = None"
    and "middleware this config req s = Inr out"
    and "cacheKey out = Some key"
  shows "bodyParams req (finalConfig this config) = [] \<and>
         key = join ''|'' [''GET'', path req,
                 JSON_stringify (JObj (queryParams req (finalConfig this config))),
                 ''{}'',
                 JSON_stringify (JObj (headers req (finalConfig this config)))] \<and>
         middleware this config (req\<lparr>body := b\<rparr>) s = Inr out"
proof -
  from middleware_cacheKey [OF assms(2,3)] final_custom_None [OF assms(1)]
  have get: "req_method req = ''GET''"
    and k: "generateCacheKey req (finalConfig this config) = Inr key" by auto
  have bp: "bodyParams req (finalConfig this config) = []"
    using get by (simp add: bodyParams_def split: option.splits)
  from k assms(1) get
  have "key = join ''|'' [''GET'', path req,
                 JSON_stringify (JObj (queryParams req (finalConfig this config))),
                 ''{}'',
                 JSON_stringify (JObj (headers req (finalConfig this config)))]"
    by (simp add: generateCacheKey_def bp)
  with bp middleware_body_irrelevant [OF get assms(1)] assms(2) show ?thesis by simp
qed

theorem builtin_key_has_empty_body_component_witness:
  "bodyParams example_request (finalConfig example_cache None) = [] \<and>
   example_key = join ''|'' [''GET'', path example_request,
       JSON_stringify (JObj (queryParams example_request (finalConfig example_cache None))),
       ''{}'',
       JSON_stringify (JObj (headers example_request (finalConfig example_cache None)))] \<and>
   middleware example_cache None
       (example_request\<lparr>body := Some [(''title'', JStr ''x'')]\<rparr>)
       (example_store (JStr ''cached'')) =
     Inr (respond_cached example_key (JStr ''cached'') (example_store (JStr ''cached'')))"
proof -
  have c: "customKeyGenerator (finalConfig example_cache None) = None"
    by (simp add: example_finalConfig defaultConfig_of_def)
  have m: "req_method example_request = ''GET'' \<or> route_customKeyGenerator None \<noteq> None"
    by (simp add: example_request_def)
  have r: "middleware example_cache None example_request (example_store (JStr ''cached'')) =
      Inr (respond_cached example_key (JStr ''cached'') (example_store (JStr ''cached'')))"
    by (simp add: middleware_handled [OF m example_generateCacheKey] example_store_get)
  have k: "cacheKey (respond_cached example_key (JStr ''cached'')
      (example_store (JStr ''cached''))) = Some example_key"
    by (simp add: respond_cached_def)
  show ?thesis by (rule builtin_key_has_empty_body_component [OF c r k])
qed

section \<open>Properties of the networked adapter\<close>



section \<open>The in-process adapter at capacity\<close>

lemma keysToDelete_bounds:
  "keysToDelete n \<le> n" "n \<le> 10 * keysToDelete n" "10 * keysToDelete n < n + 10"
  "0 < n \<Longrightarrow> 1 \<le> keysToDelete n"
  by (simp_all add: keysToDelete_def)

lemma Object_keys_obj_delete: "Object_keys (obj_delete obj k) = filter (\<lambda>x. x \<noteq> k) (Object_keys obj)"
  by (induction obj) (auto simp: Object_keys_def obj_delete_def)

lemma Object_keys_obj_set:
  "Object_keys (obj_set obj k v) = (if k \<in> set (Object_keys obj) then Object_keys obj else Object_keys obj @ [k])"
proof (induction obj)
  case Nil
  then show ?case by (simp add: Object_keys_def)
next
  case (Cons e obj)
  obtain k' v' where e: "e = (k', v')" by (cases e)
  from Cons show ?case by (simp add: Object_keys_def e)
qed

lemma evict_foldl:
  "evict i n keys c = foldl (\<lambda>c k. NodeCache_del k c) c (take (n - i) (drop i keys))"
proof (induction i n keys c rule: evict.induct)
  case (1 i n keys c)
  show ?case
  proof (cases "i < n \<and> i < length keys")
    case True
    then have d: "drop i keys = keys ! i # drop (Suc i) keys"
      by (simp add: Cons_nth_drop_Suc)
    from True have t: "n - i = Suc (n - Suc i)" by arith
    from True "1.IH" show ?thesis
      by (subst evict.simps) (simp add: d t)
  next
    case False
    then show ?thesis by (subst evict.simps) auto
  qed
qed

lemma keys_foldl_del:
  "NodeCache_keys (foldl (\<lambda>c k. NodeCache_del k c) c ks) = filter (\<lambda>k. k \<notin> set ks) (NodeCache_keys c)"
proof (induction ks arbitrary: c)
  case Nil
  then show ?case by simp
next
  case (Cons k ks)
  have "NodeCache_keys (NodeCache_del k c) = filter (\<lambda>x. x \<noteq> k) (NodeCache_keys c)"
    by (simp add: NodeCache_keys_def NodeCache_del_def Object_keys_obj_delete)
  with Cons.IH [of "NodeCache_del k c"] show ?case
    by (simp add: conj_commute)
qed

lemma filter_not_take_distinct:
  "distinct xs \<Longrightarrow> filter (\<lambda>k. k \<notin> set (take d xs)) xs = drop d xs"
proof (induction xs arbitrary: d)
  case Nil
  then show ?case by simp
next
  case (Cons x xs)
  show ?case
  proof (cases d)
    case 0
    then show ?thesis by simp
  next
    case (Suc d')
    from Cons.prems have nx: "x \<notin> set xs" and dx: "distinct xs" by simp_all
    have "filter (\<lambda>k. k \<noteq> x \<and> k \<notin> set (take d' xs)) xs = filter (\<lambda>k. k \<notin> set (take d' xs)) xs"
      using nx by (intro filter_cong) auto
    with Cons.IH [OF dx, of d'] Suc show ?thesis by simp
  qed
qed

lemma evict_fields:
  "opt_maxKeys (evict i n keys c) = opt_maxKeys c"
  by (induction i n keys c rule: evict.induct) (subst evict.simps, simp add: NodeCache_del_def)

lemma keys_clear_space:
  assumes "distinct (NodeCache_keys c)"
  shows "NodeCache_keys (clear_space c) =
           drop (keysToDelete (length (NodeCache_keys c))) (NodeCache_keys c)"
  using assms
  by (simp add: clear_space_def Let_def evict_foldl keys_foldl_del filter_not_take_distinct)

lemma clear_space_maxKeys: "opt_maxKeys (clear_space c) = opt_maxKeys c"
  by (simp add: clear_space_def Let_def evict_fields)

lemma length_data_keys: "length (data c) = length (NodeCache_keys c)"
  by (simp add: NodeCache_keys_def Object_keys_def)

lemma NodeCacheAdapter_set_returns: "fst (NodeCacheAdapter_set key v ttl a) = Inr ()"
  by (simp add: NodeCacheAdapter_set_def Let_def split: sum.splits)

lemma NodeCache_set_keys:
  "NodeCache_set key v ttl c = Inr c' \<Longrightarrow>
     NodeCache_keys c' = (if key \<in> set (NodeCache_keys c) then NodeCache_keys c else NodeCache_keys c @ [key])
     \<and> opt_maxKeys c' = opt_maxKeys c"
  by (auto simp: NodeCache_set_def NodeCache_keys_def Object_keys_obj_set split: if_splits)

lemma NodeCache_set_full:
  "NodeCache_set key v ttl c = Inl e \<Longrightarrow>
     e = NodeCacheError ''ECACHEFULL'' \<and> opt_maxKeys c > - 1 \<and> int (length (data c)) \<ge> opt_maxKeys c"
  by (auto simp: NodeCache_set_def split: if_splits)

lemma NodeCache_set_room:
  "int (length (data c)) < opt_maxKeys c \<Longrightarrow> \<exists>c'. NodeCache_set key v ttl c = Inr c'"
  by (auto simp: NodeCache_set_def)

text \<open>One write keeps a bounded store bounded and leaves the written key in it.\<close>

lemma NodeCacheAdapter_set_bounded:
  assumes N: "opt_maxKeys (cache a) = int N" "0 < N"
    and le: "length (NodeCache_keys (cache a)) \<le> N"
    and d: "distinct (NodeCache_keys (cache a))"
  shows "opt_maxKeys (cache (snd (NodeCacheAdapter_set key v ttl a))) = int N \<and>
         length (NodeCache_keys (cache (snd (NodeCacheAdapter_set key v ttl a)))) \<le> N \<and>
         distinct (NodeCache_keys (cache (snd (NodeCacheAdapter_set key v ttl a)))) \<and>
         key \<in> set (NodeCache_keys (cache (snd (NodeCacheAdapter_set key v ttl a))))"
proof (cases "NodeCache_set key v ttl (cache a)")
  case (Inr c')
  from NodeCache_set_keys [OF Inr] have k: "NodeCache_keys c' =
      (if key \<in> set (NodeCache_keys (cache a)) then NodeCache_keys (cache a) else NodeCache_keys (cache a) @ [key])"
    and m: "opt_maxKeys c' = opt_maxKeys (cache a)" by simp_all
  from Inr N have "int (length (data (cache a))) < int N"
    by (auto simp: NodeCache_set_def split: if_splits)
  then have "length (NodeCache_keys (cache a)) < N" by (simp add: length_data_keys)
  with k m N d Inr show ?thesis
    by (auto simp: NodeCacheAdapter_set_def)
next
  case (Inl e)
  let ?keys = "NodeCache_keys (cache a)"
  let ?d = "keysToDelete (length ?keys)"
  let ?c1 = "clear_space (cache a)"
  from NodeCache_set_full [OF Inl] N have e: "e = NodeCacheError ''ECACHEFULL''"
    and full: "N \<le> length ?keys" by (simp_all add: length_data_keys)
  with N have pos: "0 < length ?keys" by auto
  have k1: "NodeCache_keys ?c1 = drop ?d ?keys" by (rule keys_clear_space [OF d])
  have m1: "opt_maxKeys ?c1 = int N" by (simp add: clear_space_maxKeys N)
  from keysToDelete_bounds(4) [OF pos] keysToDelete_bounds(1) [of "length ?keys"] le
  have "length (NodeCache_keys ?c1) < N" by (simp add: k1)
  then have "int (length (data ?c1)) < opt_maxKeys ?c1" by (simp add: length_data_keys m1)
  from NodeCache_set_room [OF this] obtain c2 where c2: "NodeCache_set key v ttl ?c1 = Inr c2" by blast
  from NodeCache_set_keys [OF c2] have k2: "NodeCache_keys c2 =
      (if key \<in> set (NodeCache_keys ?c1) then NodeCache_keys ?c1 else NodeCache_keys ?c1 @ [key])"
    and m2: "opt_maxKeys c2 = opt_maxKeys ?c1" by simp_all
  have res: "snd (NodeCacheAdapter_set key v ttl a) = a\<lparr>cache := c2\<rparr>"
    using Inl e c2 by (simp add: NodeCacheAdapter_set_def Let_def)
  have "distinct (NodeCache_keys ?c1)" using d by (simp add: k1)
  with k2 m2 m1 \<open>length (NodeCache_keys ?c1) < N\<close> res show ?thesis by auto
qed

lemma insert_all_bounded:
  assumes "opt_maxKeys (cache a) = int N" "0 < N"
    and "length (NodeCache_keys (cache a)) \<le> N"
    and "distinct (NodeCache_keys (cache a))"
  shows "opt_maxKeys (cache (insert_all kvs a)) = int N \<and>
         length (NodeCache_keys (cache (insert_all kvs a))) \<le> N \<and>
         distinct (NodeCache_keys (cache (insert_all kvs a))) \<and>
         (kvs \<noteq> [] \<longrightarrow> fst (last kvs) \<in> set (NodeCache_keys (cache (insert_all kvs a))))"
  using assms
proof (induction kvs arbitrary: a rule: rev_induct)
  case Nil
  then show ?case by (simp add: insert_all_def)
next
  case (snoc x kvs)
  obtain k v ttl where x: "x = (k, v, ttl)" by (cases x) auto
  have step: "insert_all (kvs @ [(k, v, ttl)]) a = snd (NodeCacheAdapter_set k v ttl (insert_all kvs a))"
    by (simp add: insert_all_def)
  from snoc.IH [OF snoc.prems]
  have ih: "opt_maxKeys (cache (insert_all kvs a)) = int N"
    "length (NodeCache_keys (cache (insert_all kvs a))) \<le> N"
    "distinct (NodeCache_keys (cache (insert_all kvs a)))" by simp_all
  from NodeCacheAdapter_set_bounded [OF ih(1) snoc.prems(2) ih(2) ih(3), of k v ttl]
  show ?case unfolding x by (simp add: step)
qed

lemma NodeCacheAdapter_new_bounded:
  assumes "maxKeys options = Some (int N)" and "0 < N"
  shows "opt_maxKeys (cache (NodeCacheAdapter_new options t0)) = int N"
    and "NodeCache_keys (cache (NodeCacheAdapter_new options t0)) = []"
  using assms by (simp_all add: NodeCacheAdapter_new_def NodeCache_keys_def Object_keys_def)

text \<open>
  Claim C4. \<^verbatim>\<open>set\<close> on the in-process adapter always returns normally. When the
  library's write fails (it can only fail with \<^verbatim>\<open>ECACHEFULL\<close>), the adapter deletes the
  first \<open>d\<close> of the stored keys, where \<open>d\<close> is the ceiling of a tenth of their number (at
  least one when there is a key), retries the write once on the cleared table, and on
  a second failure only writes a line with \<^verbatim>\<open>console.error\<close>. With
  \<^verbatim>\<open>maxKeys = N\<close>, \<open>N\<close> positive, writing \<open>N + 1\<close> distinct keys into a new store leaves
  at most \<open>N\<close> keys, the last one written among them.
\<close>

theorem NodeCacheAdapter_set_at_capacity:
  "fst (NodeCacheAdapter_set key v ttl a) = Inr () \<and>
   (distinct (NodeCache_keys (cache a)) \<and> NodeCache_set key v ttl (cache a) = Inl err \<longrightarrow>
      errorcode err = Some ''ECACHEFULL'' \<and>
      NodeCache_keys (clear_space (cache a)) =
        drop (keysToDelete (length (NodeCache_keys (cache a)))) (NodeCache_keys (cache a)) \<and>
      (NodeCache_keys (cache a) \<noteq> [] \<longrightarrow>
         1 \<le> keysToDelete (length (NodeCache_keys (cache a)))) \<and>
      length (NodeCache_keys (cache a)) \<le> 10 * keysToDelete (length (NodeCache_keys (cache a))) \<and>
      10 * keysToDelete (length (NodeCache_keys (cache a))) < length (NodeCache_keys (cache a)) + 10 \<and>
      snd (NodeCacheAdapter_set key v ttl a) =
        (case NodeCache_set key v ttl (clear_space (cache a)) of
           Inr c2 \<Rightarrow> a\<lparr>cache := c2\<rparr>
         | Inl retryError \<Rightarrow>
             a\<lparr>cache := clear_space (cache a),
               console_error := console_error a @
                 [''Failed to cache response after clearing space:'']\<rparr>)) \<and>
   (maxKeys options = Some (int N) \<and> 0 < N \<and> distinct (map fst kvs) \<and> length kvs = N + 1 \<longrightarrow>
      length (NodeCache_keys (cache (insert_all kvs (NodeCacheAdapter_new options t0)))) \<le> N \<and>
      fst (last kvs) \<in> set (NodeCache_keys
        (cache (insert_all kvs (NodeCacheAdapter_new options t0)))))"
proof (intro conjI impI)
  show "fst (NodeCacheAdapter_set key v ttl a) = Inr ()"
    by (rule NodeCacheAdapter_set_returns)
next
  assume h: "distinct (NodeCache_keys (cache a)) \<and> NodeCache_set key v ttl (cache a) = Inl err"
  then have e: "err = NodeCacheError ''ECACHEFULL''" using NodeCache_set_full by blast
  then show "errorcode err = Some ''ECACHEFULL''" by simp
  from h show "NodeCache_keys (clear_space (cache a)) =
      drop (keysToDelete (length (NodeCache_keys (cache a)))) (NodeCache_keys (cache a))"
    by (simp add: keys_clear_space)
  show "length (NodeCache_keys (cache a)) \<le> 10 * keysToDelete (length (NodeCache_keys (cache a)))"
    by (rule keysToDelete_bounds)
  show "10 * keysToDelete (length (NodeCache_keys (cache a))) < length (NodeCache_keys (cache a)) + 10"
    by (rule keysToDelete_bounds)
  from h e show "snd (NodeCacheAdapter_set key v ttl a) =
      (case NodeCache_set key v ttl (clear_space (cache a)) of
         Inr c2 \<Rightarrow> a\<lparr>cache := c2\<rparr>
       | Inl retryError \<Rightarrow>
           a\<lparr>cache := clear_space (cache a),
             console_error := console_error a @
               [''Failed to cache response after clearing space:'']\<rparr>)"
    by (simp add: NodeCacheAdapter_set_def Let_def split: sum.splits)
next
  assume "distinct (NodeCache_keys (cache a)) \<and> NodeCache_set key v ttl (cache a) = Inl err"
    and "NodeCache_keys (cache a) \<noteq> []"
  then have "0 < length (NodeCache_keys (cache a))" by simp
  then show "1 \<le> keysToDelete (length (NodeCache_keys (cache a)))"
    by (rule keysToDelete_bounds)
next
  assume h: "maxKeys options = Some (int N) \<and> 0 < N \<and> distinct (map fst kvs) \<and> length kvs = N + 1"
  then have ne: "kvs \<noteq> []" by auto
  from h NodeCacheAdapter_new_bounded [of options N t0]
  have "opt_maxKeys (cache (NodeCacheAdapter_new options t0)) = int N" "0 < N"
    "length (NodeCache_keys (cache (NodeCacheAdapter_new options t0))) \<le> N"
    "distinct (NodeCache_keys (cache (NodeCacheAdapter_new options t0)))"
    by simp_all
  from insert_all_bounded [OF this, of kvs] ne
  show "length (NodeCache_keys (cache (insert_all kvs (NodeCacheAdapter_new options t0)))) \<le> N"
    and "fst (last kvs) \<in> set (NodeCache_keys
        (cache (insert_all kvs (NodeCacheAdapter_new options t0))))"
    by simp_all
qed

lemma example_full_store:
  "cache (insert_all [(''k1'', JNum 1, 60), (''k2'', JNum 2, 60)]
      (NodeCacheAdapter_new example_options 0)) =
     \<lparr>data = [(''k1'', JNum 1, 60000), (''k2'', JNum 2, 60000)], opt_stdTTL = 60,
      opt_checkperiod = 600, opt_maxKeys = 2, now = 0\<rparr>"
  by (simp add: insert_all_def NodeCacheAdapter_set_def NodeCache_set_def
      NodeCacheAdapter_new_def example_options_def)

theorem NodeCacheAdapter_set_at_capacity_witness:
  "fst (NodeCacheAdapter_set ''k3'' (JNum 3) 60
      (insert_all [(''k1'', JNum 1, 60), (''k2'', JNum 2, 60)]
        (NodeCacheAdapter_new example_options 0))) = Inr () \<and>
   NodeCache_keys (clear_space (cache (insert_all [(''k1'', JNum 1, 60), (''k2'', JNum 2, 60)]
        (NodeCacheAdapter_new example_options 0)))) = [''k2''] \<and>
   length (NodeCache_keys (cache (insert_all example_writes
        (NodeCacheAdapter_new example_options 0)))) \<le> 2 \<and>
   ''k3'' \<in> set (NodeCache_keys (cache (insert_all example_writes
        (NodeCacheAdapter_new example_options 0))))"
proof -
  let ?a = "insert_all [(''k1'', JNum 1, 60), (''k2'', JNum 2, 60)]
      (NodeCacheAdapter_new example_options 0)"
  have full: "distinct (NodeCache_keys (cache ?a)) \<and>
      NodeCache_set ''k3'' (JNum 3) 60 (cache ?a) = Inl (NodeCacheError ''ECACHEFULL'')"
    by (simp add: example_full_store NodeCache_keys_def Object_keys_def NodeCache_set_def)
  have ks: "NodeCache_keys (cache ?a) = [''k1'', ''k2'']"
    by (simp add: example_full_store NodeCache_keys_def Object_keys_def)
  have seq: "maxKeys example_options = Some (int 2) \<and> 0 < (2::nat) \<and>
      distinct (map fst example_writes) \<and> length example_writes = 2 + 1"
    by (simp add: example_options_def example_writes_def)
  have l: "fst (last example_writes) = ''k3''" by (simp add: example_writes_def)
  from NodeCacheAdapter_set_at_capacity
    [of "''k3''" "JNum 3" 60 ?a "NodeCacheError ''ECACHEFULL''" example_options 2
      example_writes 0] full seq
  have "fst (NodeCacheAdapter_set ''k3'' (JNum 3) 60 ?a) = Inr ()"
    and "NodeCache_keys (clear_space (cache ?a)) =
        drop (keysToDelete (length (NodeCache_keys (cache ?a)))) (NodeCache_keys (cache ?a))"
    and "length (NodeCache_keys (cache (insert_all example_writes
        (NodeCacheAdapter_new example_options 0)))) \<le> 2"
    and "fst (last example_writes) \<in> set (NodeCache_keys (cache (insert_all example_writes
        (NodeCacheAdapter_new example_options 0))))"
    by blast+
  then show ?thesis by (simp add: ks l keysToDelete_def)
qed

section \<open>Properties of invalidation\<close>

lemma RegExp_test_stateless:
  "\<not> global r \<Longrightarrow> \<not> sticky r \<Longrightarrow> RegExp_test r str = (matches r str, r)"
  by (simp add: RegExp_test_def matches_def split: option.splits)

lemma clear_forEach_node:
  assumes "\<not> global r" and "\<not> sticky r"
  shows "clear_forEach NodeCacheAdapter_ops r keys dels a =
           \<lparr>rejected = None, pattern_after = Some r,
            del_calls = dels @ filter (matches r) keys,
            cleared_store =
              a\<lparr>cache := foldl (\<lambda>c k. NodeCache_del k c) (cache a) (filter (matches r) keys)\<rparr>\<rparr>"
proof (induction keys arbitrary: dels a)
  case Nil
  then show ?case by simp
next
  case (Cons key keys)
  have d: "del_op NodeCacheAdapter_ops key a = (Inr (), a\<lparr>cache := NodeCache_del key (cache a)\<rparr>)"
    by (simp add: NodeCacheAdapter_ops_def NodeCacheAdapter_del_def)
  show ?case
    by (simp add: RegExp_test_stateless [OF assms] Cons.IH d)
qed

lemma data_foldl_del:
  "data (foldl (\<lambda>c k. NodeCache_del k c) c ks) = filter (\<lambda>e. fst e \<notin> set ks) (data c)"
proof (induction ks arbitrary: c)
  case Nil
  then show ?case by simp
next
  case (Cons k ks)
  have "data (NodeCache_del k c) = filter (\<lambda>e. fst e \<noteq> k) (data c)"
    by (simp add: NodeCache_del_def obj_delete_def)
  with Cons.IH [of "NodeCache_del k c"] show ?case
    by (simp add: conj_commute)
qed

text \<open>
  With the in-process adapter and a pattern that has neither the \<^verbatim>\<open>g\<close> nor the
  \<^verbatim>\<open>y\<close> flag, \<^verbatim>\<open>clearCache(pattern)\<close> calls \<^verbatim>\<open>del\<close> on the matching keys, in
  order, and leaves in the table exactly the entries whose key does not match;
  \<^verbatim>\<open>clearCache()\<close> empties the table.
\<close>

theorem clearCache_stateless_pattern:
  assumes "\<not> global r" and "\<not> sticky r"
  shows "rejected (clearCache (AdvancedCache_node options) (Some r) a) = None \<and>
         del_calls (clearCache (AdvancedCache_node options) (Some r) a) =
           filter (matches r) (NodeCache_keys (cache a)) \<and>
         data (cache (cleared_store (clearCache (AdvancedCache_node options) (Some r) a))) =
           filter (\<lambda>e. \<not> matches r (fst e)) (data (cache a)) \<and>
         data (cache (cleared_store (clearCache (AdvancedCache_node options) None a))) = []"
proof -
  have c: "clearCache (AdvancedCache_node options) (Some r) a =
      clear_forEach NodeCacheAdapter_ops r (NodeCache_keys (cache a)) [] a"
    by (simp add: clearCache_def AdvancedCache_node_def NodeCacheAdapter_ops_def
        NodeCacheAdapter_keys_def)
  have f: "filter (\<lambda>e. fst e \<in> set (NodeCache_keys (cache a)) \<longrightarrow> \<not> matches r (fst e))
        (data (cache a)) =
      filter (\<lambda>e. \<not> matches r (fst e)) (data (cache a))"
    by (intro filter_cong) (auto simp: NodeCache_keys_def Object_keys_def)
  have n: "data (cache (cleared_store (clearCache (AdvancedCache_node options) None a))) = []"
    by (simp add: clearCache_def AdvancedCache_node_def NodeCacheAdapter_ops_def
        NodeCacheAdapter_flushAll_def NodeCache_flushAll_def)
  show ?thesis
    by (simp add: c clear_forEach_node [OF assms] data_foldl_del f n)
qed

lemma GET_a_matches:
  "matches GET_a str = (take 6 str = ''GET /a'')"
proof -
  have "search_from (matcher GET_a) str 0 =
      (if take 6 str = ''GET /a'' then Some 6 else search_from (matcher GET_a) str 1)"
    by (subst search_from.simps) (simp add: GET_a_def)
  moreover have "search_from (matcher GET_a) str i = None" if "0 < i" for i
    using that
  proof (induction "matcher GET_a" str i rule: search_from.induct)
    case (1 str i)
    then show ?case by (subst search_from.simps) (simp add: GET_a_def)
  qed
  ultimately show ?thesis by (simp add: matches_def)
qed

theorem clearCache_stateless_pattern_witness:
  "del_calls (clearCache example_cache (Some GET_a)
      (store_of_keys [''GET /a|1'', ''GET /b|1'', ''POST /a|1''])) = [''GET /a|1''] \<and>
   NodeCache_keys (cache (cleared_store (clearCache example_cache (Some GET_a)
      (store_of_keys [''GET /a|1'', ''GET /b|1'', ''POST /a|1''])))) =
     [''GET /b|1'', ''POST /a|1'']"
proof -
  have g: "\<not> global GET_a" "\<not> sticky GET_a" by (simp_all add: GET_a_def)
  from clearCache_stateless_pattern [OF g, of example_options
      "store_of_keys [''GET /a|1'', ''GET /b|1'', ''POST /a|1'']"]
  show ?thesis
    by (simp add: example_cache_def NodeCache_keys_def Object_keys_def store_of_keys_def
        GET_a_matches)
qed

text \<open>
  Claim C6, at a pattern with the \<^verbatim>\<open>g\<close> flag. The store holds the keys
  \<^verbatim>\<open>GET /a|1\<close> and \<^verbatim>\<open>GET /a|2\<close>, and \<^verbatim>\<open>/^GET \/a/g\<close> matches both. The first
  \<^verbatim>\<open>test\<close> leaves \<^verbatim>\<open>lastIndex\<close> at 6, the second starts there and fails:
  \<^verbatim>\<open>clearCache\<close> deletes the first key only and the second stays stored.
\<close>

theorem clearCache_global_pattern_keeps_a_match:
  "matches GET_a_global ''GET /a|1'' \<and> matches GET_a_global ''GET /a|2'' \<and>
   del_calls (clearCache example_cache (Some GET_a_global)
      (store_of_keys [''GET /a|1'', ''GET /a|2''])) = [''GET /a|1''] \<and>
   NodeCache_keys (cache (cleared_store (clearCache example_cache (Some GET_a_global)
      (store_of_keys [''GET /a|1'', ''GET /a|2''])))) = [''GET /a|2'']"
proof -
  have m: "matcher GET_a_global = matcher GET_a"
    by (simp add: GET_a_global_def)
  have ms: "matches GET_a_global str = matches GET_a str" for str
    by (simp add: matches_def m)
  have t1: "RegExp_test GET_a_global ''GET /a|1'' = (True, GET_a_global\<lparr>lastIndex := 6\<rparr>)"
    by (simp add: RegExp_test_def GET_a_global_def GET_a_def search_from.simps)
  have t2: "RegExp_test (GET_a_global\<lparr>lastIndex := 6\<rparr>) ''GET /a|2'' =
      (False, GET_a_global\<lparr>lastIndex := 0\<rparr>)"
    by (simp add: RegExp_test_def GET_a_global_def GET_a_def search_from.simps)
  have "clearCache example_cache (Some GET_a_global) (store_of_keys [''GET /a|1'', ''GET /a|2'']) =
      \<lparr>rejected = None, pattern_after = Some (GET_a_global\<lparr>lastIndex := 0\<rparr>),
       del_calls = [''GET /a|1''],
       cleared_store = store_of_keys [''GET /a|2'']\<rparr>"
    by (simp add: clearCache_def example_cache_def AdvancedCache_node_def NodeCacheAdapter_ops_def
        NodeCacheAdapter_keys_def NodeCache_keys_def Object_keys_def store_of_keys_def
        t1 t2 NodeCacheAdapter_del_def NodeCache_del_def obj_delete_def)
  then show ?thesis
    by (simp add: ms GET_a_matches NodeCache_keys_def Object_keys_def store_of_keys_def)
qed

section \<open>\<^verbatim>\<open>JSON.stringify\<close> can be read back\<close>
































section \<open>The selected fields of a request\<close>





















section \<open>Determinism of the built-in key\<close>




lemma bodyParams_query [simp]:
  "bodyParams (r\<lparr>query := x\<rparr>) config = bodyParams r config"
  by (simp add: bodyParams_def split: option.splits)

lemma copy_header_query [simp]: "copy_header (r\<lparr>query := x\<rparr>) = copy_header r"
  by (intro ext) (simp add: copy_header_def)

lemma headers_query [simp]: "headers (r\<lparr>query := x\<rparr>) config = headers r config"
  by (simp add: headers_def split: option.splits)

lemma queryParams_req_get [simp]:
  "queryParams (r\<lparr>req_get := g\<rparr>) config = queryParams r config"
  by (simp add: queryParams_def split: option.splits)

lemma bodyParams_req_get [simp]:
  "bodyParams (r\<lparr>req_get := g\<rparr>) config = bodyParams r config"
  by (simp add: bodyParams_def split: option.splits)













end
